theory Spec2Isabelle
  imports Main "HOL-Library.Char_ord" "HOL-Library.List_Lexorder" "HOL-Library.Product_Lexorder"
    "HOL-Library.Sublist"
begin

section \<open>Data model\<close>

text \<open>
  The program (\<^verbatim>\<open>alocare.py\<close>) works on one pandas table. An input row has the two
  columns the code reads, \<^verbatim>\<open>Echipa\<close> and \<^verbatim>\<open>Optiuni\<close>, both read with dtype
  \<^verbatim>\<open>string\<close>: an empty cell is the missing value, modelled as \<open>None\<close>.
  \<^verbatim>\<open>preprocess_dataframe\<close> adds the columns \<^verbatim>\<open>grupa\<close>, \<^verbatim>\<open>d1\<close>, \<^verbatim>\<open>d2\<close>,
  \<^verbatim>\<open>d3\<close>, \<^verbatim>\<open>domenii\<close>, \<^verbatim>\<open>alocare\<close>, \<^verbatim>\<open>runda\<close> and \<^verbatim>\<open>tema_proiect\<close>.
  A table is the list of its rows in file order; the index label of a row is its position
  (\<^verbatim>\<open>read_csv\<close> gives a range index and no stage reorders or drops rows).
\<close>

datatype error = KeyError | IndexError | ReadError string

record row =
  Echipa :: "string option"
  Optiuni :: "string option"

record team =
  Echipa :: "string option"
  Optiuni :: "string option"
  grupa :: "char option"
  d1 :: string
  d2 :: string
  d3 :: string
  domenii :: "string list"
  alocare :: string
  runda :: string
  tema_proiect :: string

type_synonym dataframe = "team list"

section \<open>String helpers\<close>

text \<open>\<^verbatim>\<open>.str.replace(' ', '', regex=False)\<close>: every space is removed.\<close>

definition remove_spaces :: "string \<Rightarrow> string" where
  "remove_spaces s = filter (\<lambda>c. c \<noteq> CHR '' '') s"

text \<open>
  \<^verbatim>\<open>.str.split(sep)\<close> with a one-character separator: the pieces between the
  separators, empty pieces kept; the empty string splits into one empty piece.
  The result is never the empty list, so the first branch of the \<open>case\<close> is never taken.
\<close>

fun str_split :: "char \<Rightarrow> string \<Rightarrow> string list" where
  "str_split sep [] = [[]]"
| "str_split sep (x # xs) =
     (if x = sep then [] # str_split sep xs
      else (case str_split sep xs of [] \<Rightarrow> [[x]] | w # ws \<Rightarrow> (x # w) # ws))"

text \<open>\<^verbatim>\<open>.str.split('-', n=1).str[0]\<close>: the part before the first hyphen.\<close>

definition before_hyphen :: "string \<Rightarrow> string" where
  "before_hyphen s = takeWhile (\<lambda>c. c \<noteq> CHR ''-'') s"

text \<open>
  Column \<open>k\<close> of \<^verbatim>\<open>.str.split(',', expand=True).fillna('')\<close> in one row: the
  \<open>k\<close>-th piece, or the empty string where the row has fewer pieces.
\<close>

definition split_col :: "string list \<Rightarrow> nat \<Rightarrow> string" where
  "split_col pieces k = (if k < length pieces then pieces ! k else [])"

section \<open>Preprocessor\<close>

definition options_clean :: "string option \<Rightarrow> string" where
  "options_clean opt = remove_spaces (case opt of None \<Rightarrow> [] | Some s \<Rightarrow> s)"

text \<open>
  \<^verbatim>\<open>df['Echipa'].str.split('-', n=1).str[0].str[0]\<close>: the first character of the part
  before the first hyphen; missing when the name is missing or that part is empty.
\<close>

definition group_of :: "string option \<Rightarrow> char option" where
  "group_of name =
     (case name of None \<Rightarrow> None
      | Some s \<Rightarrow> (case before_hyphen s of [] \<Rightarrow> None | c # _ \<Rightarrow> Some c))"

text \<open>
  Lines 30 to 42 of \<^verbatim>\<open>preprocess_dataframe\<close> for one row. The masks are computed
  and applied in the order of the source: \<open>mask_d3_dup\<close> from the parsed columns, then
  \<open>mask_d2_dup\<close> from the columns after \<open>d3\<close> was cleared.
\<close>

definition preprocess_row :: "row \<Rightarrow> team" where
  "preprocess_row r =
     (let pieces = str_split CHR '','' (options_clean (row.Optiuni r));
          t0 = \<lparr> Echipa = row.Echipa r, Optiuni = row.Optiuni r,
                 grupa = group_of (row.Echipa r),
                 d1 = before_hyphen (split_col pieces 0),
                 d2 = before_hyphen (split_col pieces 1),
                 d3 = before_hyphen (split_col pieces 2),
                 domenii = pieces,
                 alocare = [], runda = [], tema_proiect = [] \<rparr>;
          mask_d3_dup = (d3 t0 = d1 t0 \<or> d3 t0 = d2 t0 \<or> d3 t0 = []);
          t1 = (if mask_d3_dup then t0\<lparr>d3 := []\<rparr> else t0);
          mask_d2_dup = (d2 t1 = d1 t1 \<or> d2 t1 = []);
          t2 = (if mask_d2_dup then t1\<lparr>d2 := d3 t1\<rparr> else t1);
          t3 = (if mask_d2_dup then t2\<lparr>d3 := []\<rparr> else t2)
      in t3)"

text \<open>
  The table produced by \<^verbatim>\<open>.str.split(',', expand=True)\<close> has as many columns as the
  longest row has pieces. \<^verbatim>\<open>domains_split[1]\<close> and \<^verbatim>\<open>domains_split[2]\<close> raise
  \<^verbatim>\<open>KeyError\<close> when that column does not exist, that is, when no row of the table has
  three pieces (in particular for the empty table).
\<close>

definition split_width :: "row list \<Rightarrow> nat" where
  "split_width rows =
     fold max (map (\<lambda>r. length (str_split CHR '','' (options_clean (row.Optiuni r)))) rows) 0"

definition preprocess_dataframe :: "row list \<Rightarrow> error + dataframe" where
  "preprocess_dataframe rows =
     (if split_width rows < 3 then Inl KeyError else Inr (map preprocess_row rows))"

section \<open>Round allocator\<close>

text \<open>The seed of the source, the date of the challenge.\<close>

definition SEED :: nat where
  "SEED = 19032025"

text \<open>The preference column a round reads: \<^verbatim>\<open>'d1'\<close>, \<^verbatim>\<open>'d2'\<close> or \<^verbatim>\<open>'d3'\<close>.\<close>

datatype domain_col = D1 | D2 | D3

fun col_val :: "domain_col \<Rightarrow> team \<Rightarrow> string" where
  "col_val D1 t = d1 t"
| "col_val D2 t = d2 t"
| "col_val D3 t = d3 t"

text \<open>\<^verbatim>\<open>str(round_num)\<close> for a natural number: its decimal digits.\<close>

fun str_nat :: "nat \<Rightarrow> string" where
  "str_nat n =
     (if n < 10 then [char_of (48 + n)]
      else str_nat (n div 10) @ [char_of (48 + n mod 10)])"

declare str_nat.simps [simp del]

text \<open>
  The dictionary \<^verbatim>\<open>allocated_dict\<close>: for every group with an allocated team, the set of
  the domains allocated in it. \<^verbatim>\<open>groupby('grupa')\<close> leaves out the rows whose group is
  missing, so only present group ids are keys.
\<close>

type_synonym allocated_dict = "char \<rightharpoonup> string set"

definition allocated_dict_of :: "dataframe \<Rightarrow> allocated_dict" where
  "allocated_dict_of df =
     (\<lambda>grp.
        (let domains = map alocare (filter (\<lambda>t. alocare t \<noteq> [] \<and> grupa t = Some grp) df)
         in if domains = [] then None else Some (set domains)))"

text \<open>\<^verbatim>\<open>group in allocated_dict and domain in allocated_dict[group]\<close>\<close>

definition claimed :: "allocated_dict \<Rightarrow> char \<Rightarrow> string \<Rightarrow> bool" where
  "claimed allocated grp domain =
     (case allocated grp of None \<Rightarrow> False | Some s \<Rightarrow> domain \<in> s)"

text \<open>Lines 84 to 87: the domain is added to the group's set, or the set is created.\<close>

definition claim :: "allocated_dict \<Rightarrow> char \<Rightarrow> string \<Rightarrow> allocated_dict" where
  "claim allocated grp domain =
     (case allocated grp of
        None \<Rightarrow> allocated(grp \<mapsto> {domain})
      | Some s \<Rightarrow> allocated(grp \<mapsto> insert domain s))"

text \<open>
  \<^verbatim>\<open>candidates.groupby(['grupa', domain_col])\<close>: the candidate rows (given by their index
  labels, in table order) partitioned by the pair of group and domain. The keys come in
  ascending order, first by group and then by domain; rows whose group is missing belong
  to no partition; inside a partition the rows keep the table order.
\<close>

definition group_key :: "domain_col \<Rightarrow> team \<Rightarrow> (char \<times> string) option" where
  "group_key col t = (case grupa t of None \<Rightarrow> None | Some g \<Rightarrow> Some (g, col_val col t))"

definition groupby_grupa_col ::
  "dataframe \<Rightarrow> domain_col \<Rightarrow> nat list \<Rightarrow> ((char \<times> string) \<times> nat list) list" where
  "groupby_grupa_col df col candidates =
     map (\<lambda>k. (k, filter (\<lambda>i. group_key col (df ! i) = Some k) candidates))
       (sort (remdups (List.map_filter (\<lambda>i. group_key col (df ! i)) candidates)))"

text \<open>
  The generator \<^verbatim>\<open>numpy.random.RandomState\<close> is a library outside the repository. It
  enters the model as two parameters: \<open>new_rng seed\<close> is the state of a generator
  created with that seed, and \<open>randint rng n\<close> is the number drawn by
  \<^verbatim>\<open>rng.randint(0, n)\<close> together with the state after the draw.

  Lines 74 to 79: the index label chosen in one partition. A partition of one row takes
  that row and leaves the generator alone. Indexing \<^verbatim>\<open>group_df.index\<close> outside its
  range raises \<^verbatim>\<open>IndexError\<close>.
\<close>

definition pick_team ::
  "('g \<Rightarrow> nat \<Rightarrow> nat \<times> 'g) \<Rightarrow> nat list \<Rightarrow> 'g \<Rightarrow> error + (nat \<times> 'g)" where
  "pick_team randint group_df rng =
     (let team_count = length group_df
      in if team_count = 1 then Inr (group_df ! 0, rng)
         else (case randint rng team_count of
                 (random_idx, rng') \<Rightarrow>
                   if random_idx < team_count then Inr (group_df ! random_idx, rng')
                   else Inl IndexError))"

text \<open>
  The loop of lines 70 to 87 over the partitions. The source appends to the two lists
  \<^verbatim>\<open>team_indices\<close> and \<^verbatim>\<open>allocated_domains\<close> in lockstep; the model returns the list
  of the pairs, in the order of the appends.
\<close>

fun allocate_groups ::
  "('g \<Rightarrow> nat \<Rightarrow> nat \<times> 'g) \<Rightarrow> ((char \<times> string) \<times> nat list) list \<Rightarrow> allocated_dict \<Rightarrow> 'g
     \<Rightarrow> error + (nat \<times> string) list" where
  "allocate_groups randint [] allocated rng = Inr []"
| "allocate_groups randint (((grp, domain), group_df) # rest) allocated rng =
     (if claimed allocated grp domain then allocate_groups randint rest allocated rng
      else (case pick_team randint group_df rng of
              Inl e \<Rightarrow> Inl e
            | Inr (idx, rng') \<Rightarrow>
                (case allocate_groups randint rest (claim allocated grp domain) rng' of
                   Inl e \<Rightarrow> Inl e
                 | Inr picks \<Rightarrow> Inr ((idx, domain) # picks))))"

text \<open>
  \<^verbatim>\<open>df.loc[labels, column] = values\<close>: the rows with the given index labels get the
  given values in one column, one after the other.
\<close>

primrec loc_assign ::
  "(string \<Rightarrow> team \<Rightarrow> team) \<Rightarrow> dataframe \<Rightarrow> (nat \<times> string) list \<Rightarrow> dataframe" where
  "loc_assign upd df [] = df"
| "loc_assign upd df (p # ps) = loc_assign upd (df[fst p := upd (snd p) (df ! fst p)]) ps"

definition allocate_round ::
  "(nat \<Rightarrow> 'g) \<Rightarrow> ('g \<Rightarrow> nat \<Rightarrow> nat \<times> 'g) \<Rightarrow> dataframe \<Rightarrow> domain_col \<Rightarrow> nat
     \<Rightarrow> error + (dataframe \<times> nat)" where
  "allocate_round new_rng randint df col round_num =
     (let mask = (\<lambda>t. alocare t = [] \<and> col_val col t \<noteq> [])
      in if \<not> list_ex mask df then Inr (df, 0)
         else
           (let candidates = filter (\<lambda>i. mask (df ! i)) [0..<length df];
                allocated = allocated_dict_of df;
                rng = new_rng (SEED + round_num);
                groups = groupby_grupa_col df col candidates
            in case allocate_groups randint groups allocated rng of
                 Inl e \<Rightarrow> Inl e
               | Inr picks \<Rightarrow>
                   if picks \<noteq> [] then
                     (let df1 = loc_assign (\<lambda>v t. t\<lparr>alocare := v\<rparr>) df picks;
                          df2 = loc_assign (\<lambda>v t. t\<lparr>runda := v\<rparr>) df1
                                  (map (\<lambda>p. (fst p, str_nat round_num)) picks)
                      in Inr (df2, length picks))
                   else Inr (df, 0)))"

section \<open>Preference updater\<close>

text \<open>\<^verbatim>\<open>allocated_dict\<close> looked up at a group that may be missing.\<close>

definition group_claims :: "allocated_dict \<Rightarrow> char option \<Rightarrow> string set option" where
  "group_claims allocated g = (case g of None \<Rightarrow> None | Some c \<Rightarrow> allocated c)"

text \<open>Lines 121 to 137: the new \<open>d2\<close> and \<open>d3\<close> of one row before round 2.\<close>

definition update_row2 :: "allocated_dict \<Rightarrow> team \<Rightarrow> team" where
  "update_row2 allocated t =
     (case group_claims allocated (grupa t) of
        None \<Rightarrow> t\<lparr>d2 := d2 t, d3 := d3 t\<rparr>
      | Some s \<Rightarrow>
          if d2 t \<in> s then
            (if d3 t \<noteq> [] \<and> d3 t \<notin> s then t\<lparr>d2 := d3 t, d3 := []\<rparr>
             else t\<lparr>d2 := [], d3 := []\<rparr>)
          else t\<lparr>d2 := d2 t, d3 := d3 t\<rparr>)"

text \<open>Lines 148 to 154: the new \<open>d3\<close> of one row before round 3.\<close>

definition update_row3 :: "allocated_dict \<Rightarrow> team \<Rightarrow> team" where
  "update_row3 allocated t =
     (case group_claims allocated (grupa t) of
        None \<Rightarrow> t\<lparr>d3 := d3 t\<rparr>
      | Some s \<Rightarrow> if d3 t \<in> s then t\<lparr>d3 := []\<rparr> else t\<lparr>d3 := d3 t\<rparr>)"

definition update_preferences :: "dataframe \<Rightarrow> nat \<Rightarrow> dataframe" where
  "update_preferences df round_num =
     (if \<not> list_ex (\<lambda>t. alocare t \<noteq> []) df then df
      else
        (let allocated = allocated_dict_of df
         in if round_num = 2 then map (update_row2 allocated) df
            else if round_num = 3 then map (update_row3 allocated) df
            else df))"

section \<open>Theme resolver\<close>

definition manual_theme :: string where
  "manual_theme = ''De alocat manual''"

text \<open>
  Lines 178 to 183: the first entry of \<^verbatim>\<open>domenii\<close> that is not empty and starts with
  the allocated domain (\<^verbatim>\<open>tema.startswith(alocare)\<close>), if there is one.
\<close>

fun find_theme :: "string \<Rightarrow> string list \<Rightarrow> string option" where
  "find_theme domain [] = None"
| "find_theme domain (tema # rest) =
     (if tema \<noteq> [] \<and> prefix domain tema then Some tema else find_theme domain rest)"

definition assign_theme_row :: "team \<Rightarrow> team" where
  "assign_theme_row t =
     (if alocare t = [] then t\<lparr>tema_proiect := manual_theme\<rparr>
      else (case find_theme (alocare t) (domenii t) of
              Some tema \<Rightarrow> t\<lparr>tema_proiect := tema\<rparr>
            | None \<Rightarrow> t\<lparr>tema_proiect := manual_theme\<rparr>))"

definition assign_themes :: "dataframe \<Rightarrow> dataframe" where
  "assign_themes df = map assign_theme_row df"

section \<open>Orchestrator\<close>

text \<open>
  The body of the \<^verbatim>\<open>try\<close> block of \<^verbatim>\<open>allocate_projects\<close> from
  \<^verbatim>\<open>preprocess_dataframe\<close> to \<^verbatim>\<open>assign_themes\<close>: the table after theme resolution and the dictionary
  \<^verbatim>\<open>allocation_stats\<close> as the triple of the counts of rounds 1, 2 and 3. An exception
  of a stage ends the block.
\<close>

definition run_rounds ::
  "(nat \<Rightarrow> 'g) \<Rightarrow> ('g \<Rightarrow> nat \<Rightarrow> nat \<times> 'g) \<Rightarrow> row list
     \<Rightarrow> error + (dataframe \<times> nat \<times> nat \<times> nat)" where
  "run_rounds new_rng randint rows =
     (case preprocess_dataframe rows of
        Inl e \<Rightarrow> Inl e
      | Inr df0 \<Rightarrow>
     (case allocate_round new_rng randint df0 D1 1 of
        Inl e \<Rightarrow> Inl e
      | Inr (df1, round1) \<Rightarrow>
     (case allocate_round new_rng randint (update_preferences df1 2) D2 2 of
        Inl e \<Rightarrow> Inl e
      | Inr (df2, round2) \<Rightarrow>
     (case allocate_round new_rng randint (update_preferences df2 3) D3 3 of
        Inl e \<Rightarrow> Inl e
      | Inr (df3, round3) \<Rightarrow> Inr (assign_themes df3, round1, round2, round3)))))"

text \<open>
  What \<^verbatim>\<open>read_csv\<close> hands over when it returns: the rows of the two columns the
  program reads, or a table in which one of them does not exist (a file with another
  header). The code meets a missing column after the read, at its first access to the
  column in \<^verbatim>\<open>preprocess_dataframe\<close>: \<^verbatim>\<open>df['Echipa']\<close> at line 30, then
  \<^verbatim>\<open>df['Optiuni']\<close> at line 31, each raising \<^verbatim>\<open>KeyError\<close>. The model takes the
  two accesses out of \<open>preprocess_dataframe\<close> into \<open>column_access\<close>, which runs
  right before it.
\<close>

datatype csv_table = Missing_Echipa | Missing_Optiuni | Columns "row list"

definition column_access :: "csv_table \<Rightarrow> error + row list" where
  "column_access tbl =
     (case tbl of
        Missing_Echipa \<Rightarrow> Inl KeyError
      | Missing_Optiuni \<Rightarrow> Inl KeyError
      | Columns rows \<Rightarrow> Inr rows)"

text \<open>
  The whole \<^verbatim>\<open>try\<close> block up to the call of \<^verbatim>\<open>to_csv\<close>. Reading the file is
  outside the model: its outcome, the table or the exception of \<^verbatim>\<open>read_csv\<close> (file
  not found, undecodable bytes, unparsable lines), is the argument \<open>input\<close>.
\<close>

definition try_block ::
  "(nat \<Rightarrow> 'g) \<Rightarrow> ('g \<Rightarrow> nat \<Rightarrow> nat \<times> 'g) \<Rightarrow> error + csv_table
     \<Rightarrow> error + (dataframe \<times> nat \<times> nat \<times> nat)" where
  "try_block new_rng randint input =
     (case input of
        Inl e \<Rightarrow> Inl e
      | Inr tbl \<Rightarrow>
          (case column_access tbl of
             Inl e \<Rightarrow> Inl e
           | Inr rows \<Rightarrow> run_rounds new_rng randint rows))"

text \<open>
  What a run can touch outside the table: the lines printed to standard error (the source
  prints \<^verbatim>\<open>Error:\<close> and the exception; the model keeps the exception) and the content
  of the output file, \<open>None\<close> while it does not exist. An exception anywhere in the
  \<^verbatim>\<open>try\<close> block goes to the \<^verbatim>\<open>except\<close> branch, which prints it and returns
  \<^verbatim>\<open>None\<close>. The file is written by the last statement of the block; writing it is
  taken to succeed.
\<close>

record world =
  stderr :: "error list"
  output_file :: "dataframe option"

definition allocate_projects ::
  "(nat \<Rightarrow> 'g) \<Rightarrow> ('g \<Rightarrow> nat \<Rightarrow> nat \<times> 'g) \<Rightarrow> error + csv_table \<Rightarrow> world
     \<Rightarrow> world \<times> dataframe option" where
  "allocate_projects new_rng randint input w =
     (case try_block new_rng randint input of
        Inl e \<Rightarrow> (w\<lparr>stderr := stderr w @ [e]\<rparr>, None)
      | Inr (df, allocation_stats) \<Rightarrow> (w\<lparr>output_file := Some df\<rparr>, Some df))"

section \<open>Reference notions of the specification\<close>

text \<open>
  The specification speaks of the set of domains a group has claimed. Read from a table,
  without the dictionary of the code: the allocated domains of the teams of that group.
  A team whose group id is missing belongs to no group.
\<close>

definition claimed_domains :: "dataframe \<Rightarrow> char option \<Rightarrow> string set" where
  "claimed_domains df g =
     (case g of None \<Rightarrow> {}
      | Some c \<Rightarrow> set (map alocare (filter (\<lambda>t. grupa t = Some c \<and> alocare t \<noteq> []) df)))"

text \<open>
  The cascading rule in the words of the specification: the pair of the new \<open>d2\<close> and
  \<open>d3\<close> of a team before round 2, and the new \<open>d3\<close> before round 3.
\<close>

definition spec_round2 :: "dataframe \<Rightarrow> team \<Rightarrow> string \<times> string" where
  "spec_round2 df t =
     (let cl = claimed_domains df (grupa t)
      in if cl = {} then (d2 t, d3 t)
         else if d2 t \<in> cl then (if d3 t \<noteq> [] \<and> d3 t \<notin> cl then (d3 t, []) else ([], []))
         else (d2 t, d3 t))"

definition spec_round3 :: "dataframe \<Rightarrow> team \<Rightarrow> string" where
  "spec_round3 df t =
     (let cl = claimed_domains df (grupa t)
      in if cl \<noteq> {} \<and> d3 t \<in> cl then [] else d3 t)"

section \<open>Sample data\<close>

text \<open>
  A generator that always draws 0 and has no state, and a small table after round 1:
  in group 1 the first team holds domain A, the second wants D, A, C and the third
  wants A, B, C; the fourth team is alone in group 2.
\<close>

definition randint_zero :: "unit \<Rightarrow> nat \<Rightarrow> nat \<times> unit" where
  "randint_zero rng n = (0, rng)"

definition sample_after_round1 :: dataframe where
  "sample_after_round1 =
     [(preprocess_row \<lparr>row.Echipa = Some ''1-T1'', row.Optiuni = Some ''A-x, B-y, C-z''\<rparr>)
        \<lparr>alocare := ''A'', runda := ''1''\<rparr>,
      preprocess_row \<lparr>row.Echipa = Some ''1-T2'', row.Optiuni = Some ''D-w, A-y, C-z''\<rparr>,
      preprocess_row \<lparr>row.Echipa = Some ''1-T3'', row.Optiuni = Some ''A-x, B-y, C-z''\<rparr>,
      preprocess_row \<lparr>row.Echipa = Some ''2-T4'', row.Optiuni = Some ''A-x, B-y, C-z''\<rparr>]"

section \<open>Auxiliary predicates\<close>

text \<open>
  What the picks of one round look like, relative to the table the round started from:
  no row is picked twice, no pair of group and domain is picked twice, and every picked
  row was an unallocated candidate of a present group that had not claimed the domain;
  the domain is the row's value in the round's column.
\<close>

definition round_picks ::
  "dataframe \<Rightarrow> domain_col \<Rightarrow> (nat \<times> string) list \<Rightarrow> bool" where
  "round_picks df col picks \<longleftrightarrow>
     distinct (map fst picks) \<and>
     distinct (map (\<lambda>p. (grupa (df ! fst p), snd p)) picks) \<and>
     (\<forall>p \<in> set picks. fst p < length df \<and> alocare (df ! fst p) = [] \<and> snd p \<noteq> [] \<and>
        col_val col (df ! fst p) = snd p \<and>
        (\<exists>g. grupa (df ! fst p) = Some g \<and> snd p \<notin> claimed_domains df (Some g)))"

text \<open>
  Allocation is kept from a table to a later one: the tables have the same rows, and a
  row that had an allocated domain has the same domain and the same round afterwards.
\<close>

definition allocation_kept :: "dataframe \<Rightarrow> dataframe \<Rightarrow> bool" where
  "allocation_kept df df' \<longleftrightarrow>
     list_all2 (\<lambda>t t'. alocare t \<noteq> [] \<longrightarrow> alocare t' = alocare t \<and> runda t' = runda t) df df'"

text \<open>
  The group invariant: over the allocated rows, the pairs of group and allocated domain
  are pairwise different. Rows whose group is missing count as one more group here, which
  only makes the invariant stronger.
\<close>

definition group_domains_unique :: "dataframe \<Rightarrow> bool" where
  "group_domains_unique df \<longleftrightarrow>
     distinct (map (\<lambda>t. (grupa t, alocare t)) (filter (\<lambda>t. alocare t \<noteq> []) df))"

text \<open>
  A sample run with the generator that always draws 0: three teams of group 1 that all
  want domain A first, and one team of group 2. The tables after rounds 1, 2 and 3.
\<close>

definition sample_rows :: "row list" where
  "sample_rows =
     [\<lparr>row.Echipa = Some ''1-T1'', row.Optiuni = Some ''A-x, B-y, C-z''\<rparr>,
      \<lparr>row.Echipa = Some ''1-T2'', row.Optiuni = Some ''A-x, A-q, B-y''\<rparr>,
      \<lparr>row.Echipa = Some ''1-T3'', row.Optiuni = Some ''A-x, B-y, C-z''\<rparr>,
      \<lparr>row.Echipa = Some ''2-T4'', row.Optiuni = Some ''A-x''\<rparr>]"

definition sample_round1 :: dataframe where
  "sample_round1 =
     fst (projr (allocate_round (\<lambda>seed. ()) randint_zero (map preprocess_row sample_rows) D1 1))"

definition sample_round2 :: dataframe where
  "sample_round2 =
     fst (projr (allocate_round (\<lambda>seed. ()) randint_zero (update_preferences sample_round1 2) D2 2))"

definition sample_round3 :: dataframe where
  "sample_round3 =
     fst (projr (allocate_round (\<lambda>seed. ()) randint_zero (update_preferences sample_round2 3) D3 3))"

text \<open>
  A world in which an output file of an earlier run exists, and a table whose teams all
  give two options only, so that the third column of the split does not exist.
\<close>

definition world_before :: world where
  "world_before = \<lparr>stderr = [], output_file = Some sample_after_round1\<rparr>"

definition two_option_rows :: "row list" where
  "two_option_rows =
     [\<lparr>row.Echipa = Some ''1-T1'', row.Optiuni = Some ''A-x, B-y''\<rparr>,
      \<lparr>row.Echipa = Some ''1-T2'', row.Optiuni = Some ''B-y''\<rparr>]"

text \<open>
  The three domain columns as parsed at lines 33 to 35, before the masks are applied.
\<close>

definition parsed_domains :: "string option \<Rightarrow> string list" where
  "parsed_domains opt =
     (let pieces = str_split CHR '','' (options_clean opt)
      in [before_hyphen (split_col pieces 0), before_hyphen (split_col pieces 1),
          before_hyphen (split_col pieces 2)])"

text \<open>The three domain columns of a row after preprocessing.\<close>

definition domain_list :: "team \<Rightarrow> string list" where
  "domain_list t = [d1 t, d2 t, d3 t]"

text \<open>
  A list of slots is left-packed when no filled slot follows an empty one. The
  elements of a list in the order of their first occurrence, each once.
\<close>

definition left_packed :: "string list \<Rightarrow> bool" where
  "left_packed ds \<longleftrightarrow> list_all (\<lambda>d. d = []) (dropWhile (\<lambda>d. d \<noteq> []) ds)"

definition first_occurrences :: "'a list \<Rightarrow> 'a list" where
  "first_occurrences xs = rev (remdups (rev xs))"

text \<open>
  More sample data: a generator with a counter as its state that draws the counter
  modulo the bound, a generator that always draws the last index, a row whose first
  option is empty, and two teams of one group with the same options, in which one domain
  name is the beginning of another.
\<close>

definition randint_mod :: "nat \<Rightarrow> nat \<Rightarrow> nat \<times> nat" where
  "randint_mod rng n = (rng mod n, rng + 1)"

definition randint_last :: "unit \<Rightarrow> nat \<Rightarrow> nat \<times> unit" where
  "randint_last rng n = (n - 1, rng)"

definition empty_first_row :: row where
  "empty_first_row = \<lparr>row.Echipa = Some ''1-T1'', row.Optiuni = Some '',B-x,C-y''\<rparr>"

definition prefix_rows :: "row list" where
  "prefix_rows =
     [\<lparr>row.Echipa = Some ''1-T1'', row.Optiuni = Some ''AB-x, A-y, C-z''\<rparr>,
      \<lparr>row.Echipa = Some ''1-T2'', row.Optiuni = Some ''AB-x, A-y, C-z''\<rparr>]"

text \<open>
  The theme of a team in the words of the specification: the manual-assignment default
  when no domain is allocated; otherwise the first entry of the original preference list
  whose part before the first hyphen equals the allocated domain, and the default when
  there is none.
\<close>

definition spec_theme :: "team \<Rightarrow> string" where
  "spec_theme t =
     (if alocare t = [] then manual_theme
      else (case find (\<lambda>e. before_hyphen e = alocare t) (domenii t) of
              Some e \<Rightarrow> e
            | None \<Rightarrow> manual_theme))"

text \<open>The allocated domain, the theme the code assigns and the theme of the specification.\<close>

definition theme_report :: "dataframe \<Rightarrow> (string \<times> string \<times> string) list" where
  "theme_report df = map (\<lambda>t. (alocare t, tema_proiect t, spec_theme t)) df"

text \<open>
  A domain value comes from the original preference list of a team when it is empty or
  is the part before the first hyphen of one of the entries. A team is well formed when
  its three preference slots and its allocated domain come from its original list and
  no entry of that list contains a space.
\<close>

definition from_original :: "team \<Rightarrow> string \<Rightarrow> bool" where
  "from_original t d \<longleftrightarrow> d = [] \<or> list_ex (\<lambda>e. before_hyphen e = d) (domenii t)"



text \<open>
  Three teams of one group that all ask for domain A alone, three times over, and the
  table the run with the generator that always draws 0 returns for them.
\<close>

definition contested_rows :: "row list" where
  "contested_rows =
     [\<lparr>row.Echipa = Some ''1-T1'', row.Optiuni = Some ''A-x, A-y, A-z''\<rparr>,
      \<lparr>row.Echipa = Some ''1-T2'', row.Optiuni = Some ''A-x, A-y, A-z''\<rparr>,
      \<lparr>row.Echipa = Some ''1-T3'', row.Optiuni = Some ''A-x, A-y, A-z''\<rparr>]"

definition contested_final :: dataframe where
  "contested_final = fst (projr (run_rounds (\<lambda>seed. ()) randint_zero contested_rows))"

section \<open>Basic facts\<close>

lemma filter_conj_swap: "filter (\<lambda>t. P t \<and> Q t) xs = filter (\<lambda>t. Q t \<and> P t) xs"
  by (rule filter_cong) auto

lemma group_claims_eq:
  "group_claims (allocated_dict_of df) g =
     (if claimed_domains df g = {} then None else Some (claimed_domains df g))"
  by (cases g) (auto simp: group_claims_def allocated_dict_of_def claimed_domains_def Let_def
      filter_empty_conv filter_conj_swap [of "\<lambda>t. alocare t \<noteq> []"])

lemma no_alloc_claimed_empty:
  assumes "\<not> list_ex (\<lambda>t. alocare t \<noteq> []) df"
  shows "claimed_domains df g = {}"
proof (cases g)
  case None
  then show ?thesis by (simp add: claimed_domains_def)
next
  case (Some c)
  from assms have "filter (\<lambda>t. grupa t = Some c \<and> alocare t \<noteq> []) df = []"
    by (auto simp: list_ex_iff filter_empty_conv)
  with Some show ?thesis by (simp add: claimed_domains_def)
qed

section \<open>Preference updater: cascading rule and frame\<close>

lemma update_row2_spec:
  "(d2 (update_row2 (allocated_dict_of df) t), d3 (update_row2 (allocated_dict_of df) t))
     = spec_round2 df t"
  by (simp add: update_row2_def group_claims_eq spec_round2_def Let_def)

lemma update_row3_spec:
  "d3 (update_row3 (allocated_dict_of df) t) = spec_round3 df t"
  by (simp add: update_row3_def group_claims_eq spec_round3_def Let_def)

text \<open>
  Claim C6. Before round 2 every team gets the \<open>d2\<close> and \<open>d3\<close> the cascading rule of
  the specification prescribes: unchanged when its group has claimed nothing; when
  \<open>d2\<close> is claimed, \<open>d3\<close> promoted into \<open>d2\<close> if it is non-empty and unclaimed, and
  both cleared otherwise; unchanged when \<open>d2\<close> is not claimed. Before round 3, \<open>d3\<close>
  is cleared exactly when the group has claims and \<open>d3\<close> is among them.
\<close>

theorem update_preferences_cascade:
  "map (\<lambda>t. (d2 t, d3 t)) (update_preferences df 2) = map (spec_round2 df) df \<and>
   map d3 (update_preferences df 3) = map (spec_round3 df) df"
proof (cases "list_ex (\<lambda>t. alocare t \<noteq> []) df")
  case True
  then show ?thesis
    by (simp add: update_preferences_def Let_def update_row2_spec update_row3_spec comp_def)
next
  case False
  then show ?thesis
    by (simp add: update_preferences_def spec_round2_def spec_round3_def no_alloc_claimed_empty)
qed

lemma update_row2_frame: "(update_row2 a t)\<lparr>d2 := [], d3 := []\<rparr> = t\<lparr>d2 := [], d3 := []\<rparr>"
  by (simp add: update_row2_def split: option.splits)

lemma update_row3_frame: "(update_row3 a t)\<lparr>d3 := []\<rparr> = t\<lparr>d3 := []\<rparr>"
  by (simp add: update_row3_def split: option.splits)

lemma update_row3_frame2: "(update_row3 a t)\<lparr>d2 := [], d3 := []\<rparr> = t\<lparr>d2 := [], d3 := []\<rparr>"
  by (simp add: update_row3_def split: option.splits)

text \<open>
  Claim C9. Whatever the round number, a table and its update differ at most in the
  columns \<open>d2\<close> and \<open>d3\<close>: with these two blanked the tables are equal, so the team
  name, the options, the group, \<open>d1\<close>, the original preference list, the allocated
  domain, the round and the theme are untouched. For round 3 the tables are equal already
  with \<open>d3\<close> alone blanked, so \<open>d2\<close> is untouched as well.
\<close>

theorem update_preferences_frame:
  "map (\<lambda>t. t\<lparr>d2 := [], d3 := []\<rparr>) (update_preferences df round_num)
     = map (\<lambda>t. t\<lparr>d2 := [], d3 := []\<rparr>) df \<and>
   map (\<lambda>t. t\<lparr>d3 := []\<rparr>) (update_preferences df 3) = map (\<lambda>t. t\<lparr>d3 := []\<rparr>) df"
  by (simp add: update_preferences_def Let_def comp_def update_row2_frame update_row3_frame
      update_row3_frame2)

section \<open>Round allocator: the partition loop\<close>

lemma pick_team_mem:
  assumes "pick_team randint ms rng = Inr (idx, rng')"
  shows "idx \<in> set ms"
proof (cases "length ms = 1")
  case True
  with assms have "idx = ms ! 0" by (simp add: pick_team_def)
  with True show ?thesis by (metis nth_mem zero_less_one)
next
  case False
  obtain r g where rg: "randint rng (length ms) = (r, g)" by (cases "randint rng (length ms)")
  with False assms have "r < length ms \<and> idx = ms ! r"
    by (auto simp: pick_team_def Let_def split: if_splits)
  then show ?thesis by simp
qed

lemma claimed_claim:
  "claimed (claim a g d) g' d' \<longleftrightarrow> claimed a g' d' \<or> (g' = g \<and> d' = d)"
  by (auto simp: claimed_def claim_def split: option.splits)

lemma allocate_groups_picks:
  assumes "allocate_groups randint groups allocated rng = Inr picks"
    and "\<forall>km \<in> set groups. \<forall>i \<in> set (snd km). key i = Some (fst km)"
  shows "distinct (map (\<lambda>p. key (fst p)) picks) \<and>
         (\<forall>p \<in> set picks. \<exists>g ms. key (fst p) = Some (g, snd p) \<and> \<not> claimed allocated g (snd p)
              \<and> ((g, snd p), ms) \<in> set groups \<and> fst p \<in> set ms)"
  using assms
proof (induction groups arbitrary: allocated rng picks)
  case Nil
  then show ?case by simp
next
  case (Cons km rest)
  obtain grp domain ms where km: "km = ((grp, domain), ms)" by (metis surj_pair)
  have wf_rest: "\<forall>km \<in> set rest. \<forall>i \<in> set (snd km). key i = Some (fst km)"
    using Cons.prems(2) by simp
  show ?case
  proof (cases "claimed allocated grp domain")
    case True
    with Cons.prems(1) km have "allocate_groups randint rest allocated rng = Inr picks" by simp
    from Cons.IH [OF this wf_rest] show ?thesis by fastforce
  next
    case False
    with Cons.prems(1) km obtain idx rng' picks' where
      pk: "pick_team randint ms rng = Inr (idx, rng')" and
      rec: "allocate_groups randint rest (claim allocated grp domain) rng' = Inr picks'" and
      picks: "picks = (idx, domain) # picks'"
      by (auto split: sum.splits)
    from pick_team_mem [OF pk] have idx: "idx \<in> set ms" .
    with Cons.prems(2) km have kidx: "key idx = Some (grp, domain)" by simp
    from Cons.IH [OF rec wf_rest] have
      d: "distinct (map (\<lambda>p. key (fst p)) picks')" and
      a: "\<forall>p \<in> set picks'. \<exists>g ms. key (fst p) = Some (g, snd p)
            \<and> \<not> claimed (claim allocated grp domain) g (snd p)
            \<and> ((g, snd p), ms) \<in> set rest \<and> fst p \<in> set ms"
      by simp_all
    have new: "key idx \<notin> set (map (\<lambda>p. key (fst p)) picks')"
    proof
      assume "key idx \<in> set (map (\<lambda>p. key (fst p)) picks')"
      then obtain p where p: "p \<in> set picks'" "key (fst p) = Some (grp, domain)"
        using kidx by auto
      with a obtain g where "key (fst p) = Some (g, snd p)"
        "\<not> claimed (claim allocated grp domain) g (snd p)" by blast
      with p show False by (simp add: claimed_claim)
    qed
    have "\<forall>p \<in> set picks. \<exists>g ms. key (fst p) = Some (g, snd p) \<and> \<not> claimed allocated g (snd p)
              \<and> ((g, snd p), ms) \<in> set (km # rest) \<and> fst p \<in> set ms"
    proof
      fix p assume "p \<in> set picks"
      with picks consider "p = (idx, domain)" | "p \<in> set picks'" by auto
      then show "\<exists>g ms. key (fst p) = Some (g, snd p) \<and> \<not> claimed allocated g (snd p)
              \<and> ((g, snd p), ms) \<in> set (km # rest) \<and> fst p \<in> set ms"
      proof cases
        case 1
        with kidx False idx km show ?thesis by auto
      next
        case 2
        with a obtain g ms' where "key (fst p) = Some (g, snd p)"
          "\<not> claimed (claim allocated grp domain) g (snd p)"
          "((g, snd p), ms') \<in> set rest" "fst p \<in> set ms'" by blast
        then show ?thesis by (auto simp: claimed_claim)
      qed
    qed
    with d new picks show ?thesis by simp
  qed
qed

lemma groupby_members:
  assumes "km \<in> set (groupby_grupa_col df col cands)" and "i \<in> set (snd km)"
  shows "group_key col (df ! i) = Some (fst km) \<and> i \<in> set cands"
  using assms by (auto simp: groupby_grupa_col_def)


lemma length_loc_assign [simp]: "length (loc_assign upd df ps) = length df"
  by (induction ps arbitrary: df) simp_all

lemma loc_assign_nth:
  assumes "distinct (map fst ps)" and "i < length df"
  shows "loc_assign upd df ps ! i
           = (case map_of ps i of None \<Rightarrow> df ! i | Some v \<Rightarrow> upd v (df ! i))"
  using assms
proof (induction ps arbitrary: df)
  case Nil
  then show ?case by simp
next
  case (Cons p ps)
  obtain j v where p: "p = (j, v)" by (cases p)
  from Cons.prems p have dps: "distinct (map fst ps)" and jn: "j \<notin> fst ` set ps" by auto
  have len: "i < length (df[j := upd v (df ! j)])" using Cons.prems(2) by simp
  show ?case
  proof (cases "i = j")
    case True
    from jn have "map_of ps j = None" by (simp add: map_of_eq_None_iff)
    with True Cons.IH [OF dps len] p Cons.prems(2) show ?thesis by simp
  next
    case False
    then have "df[j := upd v (df ! j)] ! i = df ! i" by simp
    with False Cons.IH [OF dps len] p show ?thesis by (simp split: option.splits)
  qed
qed

lemma map_of_const:
  "map_of (map (\<lambda>p. (fst p, c)) ps) i = map_option (\<lambda>_. c) (map_of ps i)"
  by (induction ps) auto

section \<open>Round allocator: what one round does to the table\<close>

lemma claimed_iff:
  "claimed (allocated_dict_of df) g d \<longleftrightarrow> d \<in> claimed_domains df (Some g)"
  using group_claims_eq [of df "Some g"] by (simp add: claimed_def group_claims_def)

lemma group_key_Some:
  "group_key col t = Some (g, d) \<longleftrightarrow> grupa t = Some g \<and> col_val col t = d"
  by (auto simp: group_key_def split: option.splits)

lemma distinct_of_map: "distinct (map f ys) \<Longrightarrow> distinct ys"
  by (simp add: distinct_map)

lemma round_picks_Nil: "round_picks df col []"
  by (simp add: round_picks_def)

lemma allocate_groups_round_picks:
  assumes ag: "allocate_groups randint
                 (groupby_grupa_col df col
                    (filter (\<lambda>i. alocare (df ! i) = [] \<and> col_val col (df ! i) \<noteq> []) [0..<length df]))
                 (allocated_dict_of df) rng = Inr picks"
  shows "round_picks df col picks"
proof -
  let ?cands = "filter (\<lambda>i. alocare (df ! i) = [] \<and> col_val col (df ! i) \<noteq> []) [0..<length df]"
  let ?key = "\<lambda>i. group_key col (df ! i)"
  have wf: "\<forall>km \<in> set (groupby_grupa_col df col ?cands). \<forall>i \<in> set (snd km). ?key i = Some (fst km)"
    using groupby_members by blast
  from allocate_groups_picks [OF ag wf] have
    dk: "distinct (map (\<lambda>p. ?key (fst p)) picks)" and
    pk: "\<forall>p \<in> set picks. \<exists>g ms. ?key (fst p) = Some (g, snd p)
            \<and> \<not> claimed (allocated_dict_of df) g (snd p)
            \<and> ((g, snd p), ms) \<in> set (groupby_grupa_col df col ?cands) \<and> fst p \<in> set ms"
    by simp_all
  have each: "fst p < length df \<and> alocare (df ! fst p) = [] \<and> snd p \<noteq> [] \<and>
        col_val col (df ! fst p) = snd p \<and>
        (\<exists>g. grupa (df ! fst p) = Some g \<and> snd p \<notin> claimed_domains df (Some g))"
    if "p \<in> set picks" for p
  proof -
    from pk that obtain g ms where
      k: "?key (fst p) = Some (g, snd p)" and nc: "\<not> claimed (allocated_dict_of df) g (snd p)"
      and km: "((g, snd p), ms) \<in> set (groupby_grupa_col df col ?cands)" and i: "fst p \<in> set ms"
      by blast
    from groupby_members [OF km] i have "fst p \<in> set ?cands" by simp
    with k nc show ?thesis by (auto simp: group_key_Some claimed_iff)
  qed
  from dk have "distinct (map ?key (map fst picks))" by (simp add: comp_def)
  then have d1: "distinct (map fst picks)" by (rule distinct_of_map)
  have pointwise: "?key (fst p) = Some (the (grupa (df ! fst p)), snd p)" if "p \<in> set picks" for p
  proof -
    from each [OF that] obtain g where "grupa (df ! fst p) = Some g"
      "col_val col (df ! fst p) = snd p" by blast
    then show ?thesis by (simp add: group_key_def)
  qed
  have eq1: "map (\<lambda>p. ?key (fst p)) picks
          = map (\<lambda>p. Some (the (grupa (df ! fst p)), snd p)) picks"
    by (rule map_cong [OF refl]) (rule pointwise)
  have eq2: "map (\<lambda>p. Some (the (grupa (df ! fst p)), snd p)) picks
          = map (\<lambda>q. Some (the (fst q), snd q)) (map (\<lambda>p. (grupa (df ! fst p), snd p)) picks)"
    by (simp add: comp_def)
  have "distinct (map (\<lambda>q. Some (the (fst q), snd q))
                     (map (\<lambda>p. (grupa (df ! fst p), snd p)) picks))"
    unfolding eq2 [symmetric] eq1 [symmetric] by (rule dk)
  then have d2: "distinct (map (\<lambda>p. (grupa (df ! fst p), snd p)) picks)"
    by (rule distinct_of_map)
  from d1 d2 each show ?thesis unfolding round_picks_def by blast
qed

lemma allocate_round_result:
  assumes "allocate_round new_rng randint df col r = Inr (df', n)"
  shows "\<exists>picks. round_picks df col picks \<and> n = length picks \<and> length df' = length df \<and>
           (\<forall>i<length df. df' ! i =
              (case map_of picks i of None \<Rightarrow> df ! i
               | Some d \<Rightarrow> (df ! i)\<lparr>alocare := d, runda := str_nat r\<rparr>))"
proof (cases "list_ex (\<lambda>t. alocare t = [] \<and> col_val col t \<noteq> []) df")
  case False
  with assms have "df' = df" "n = 0" by (simp_all add: allocate_round_def)
  then have "round_picks df col [] \<and> n = length ([] :: (nat \<times> string) list) \<and> length df' = length df \<and>
           (\<forall>i<length df. df' ! i =
              (case map_of [] i of None \<Rightarrow> df ! i
               | Some d \<Rightarrow> (df ! i)\<lparr>alocare := d, runda := str_nat r\<rparr>))"
    by (simp add: round_picks_Nil)
  then show ?thesis by blast
next
  case True
  let ?cands = "filter (\<lambda>i. alocare (df ! i) = [] \<and> col_val col (df ! i) \<noteq> []) [0..<length df]"
  from True assms obtain picks where
    ag: "allocate_groups randint (groupby_grupa_col df col ?cands) (allocated_dict_of df)
           (new_rng (SEED + r)) = Inr picks" and
    res: "(df', n) = (if picks \<noteq> [] then
             (loc_assign (\<lambda>v t. t\<lparr>runda := v\<rparr>) (loc_assign (\<lambda>v t. t\<lparr>alocare := v\<rparr>) df picks)
                (map (\<lambda>p. (fst p, str_nat r)) picks), length picks)
           else (df, 0))"
    by (auto simp: allocate_round_def Let_def split: sum.splits if_splits)
  have rp: "round_picks df col picks" by (rule allocate_groups_round_picks [OF ag])
  then have d1: "distinct (map fst picks)" by (simp add: round_picks_def)
  have d2: "distinct (map fst (map (\<lambda>p. (fst p, str_nat r)) picks))"
    using d1 by (simp add: comp_def)
  have nth: "df' ! i = (case map_of picks i of None \<Rightarrow> df ! i
               | Some d \<Rightarrow> (df ! i)\<lparr>alocare := d, runda := str_nat r\<rparr>)" if "i < length df" for i
  proof (cases "picks = []")
    case True
    with res show ?thesis by simp
  next
    case False
    with res have "df' = loc_assign (\<lambda>v t. t\<lparr>runda := v\<rparr>) (loc_assign (\<lambda>v t. t\<lparr>alocare := v\<rparr>) df picks)
                (map (\<lambda>p. (fst p, str_nat r)) picks)" by simp
    with that show ?thesis
      by (simp add: loc_assign_nth [OF d2] loc_assign_nth [OF d1] map_of_const split: option.splits)
  qed
  from res have "n = length picks" "length df' = length df" by (auto split: if_splits)
  with rp nth show ?thesis by blast
qed

lemma distinct_map_filter_nth:
  "distinct (map f (filter P xs)) \<longleftrightarrow>
     (\<forall>i<length xs. \<forall>j<length xs. i < j \<and> P (xs ! i) \<and> P (xs ! j) \<longrightarrow> f (xs ! i) \<noteq> f (xs ! j))"
proof (induction xs)
  case Nil
  then show ?case by simp
next
  case (Cons x xs)
  have split: "(\<forall>i<length (x # xs). \<forall>j<length (x # xs). i < j \<and> P ((x # xs) ! i) \<and> P ((x # xs) ! j)
                  \<longrightarrow> f ((x # xs) ! i) \<noteq> f ((x # xs) ! j))
        \<longleftrightarrow> (\<forall>j<length xs. P x \<and> P (xs ! j) \<longrightarrow> f x \<noteq> f (xs ! j)) \<and>
            (\<forall>i<length xs. \<forall>j<length xs. i < j \<and> P (xs ! i) \<and> P (xs ! j) \<longrightarrow> f (xs ! i) \<noteq> f (xs ! j))"
    (is "?A \<longleftrightarrow> ?B \<and> ?C")
  proof
    assume a: ?A
    have ?B
    proof (intro allI impI)
      fix j assume "j < length xs" "P x \<and> P (xs ! j)"
      with a [rule_format, of 0 "Suc j"] show "f x \<noteq> f (xs ! j)" by simp
    qed
    moreover have ?C
    proof (intro allI impI)
      fix i j assume "i < length xs" "j < length xs" "i < j \<and> P (xs ! i) \<and> P (xs ! j)"
      with a [rule_format, of "Suc i" "Suc j"] show "f (xs ! i) \<noteq> f (xs ! j)" by simp
    qed
    ultimately show "?B \<and> ?C" ..
  next
    assume bc: "?B \<and> ?C"
    show ?A
    proof (intro allI impI)
      fix i j assume ij: "i < length (x # xs)" "j < length (x # xs)"
        "i < j \<and> P ((x # xs) ! i) \<and> P ((x # xs) ! j)"
      then obtain j' where j': "j = Suc j'" by (cases j) auto
      show "f ((x # xs) ! i) \<noteq> f ((x # xs) ! j)"
      proof (cases i)
        case 0
        with ij j' bc show ?thesis by simp
      next
        case (Suc i')
        with ij j' bc show ?thesis by simp
      qed
    qed
  qed
  have mem: "f x \<in> f ` set (filter P xs) \<longleftrightarrow> (\<exists>j<length xs. P (xs ! j) \<and> f x = f (xs ! j))"
    by (auto simp: in_set_conv_nth image_iff)
  show ?case unfolding split using Cons.IH mem by auto
qed

section \<open>Allocation is never changed once set\<close>

lemma round_picks_map_of:
  assumes "round_picks df col picks" and "map_of picks i = Some d"
  shows "i < length df \<and> alocare (df ! i) = [] \<and> d \<noteq> [] \<and> col_val col (df ! i) = d \<and>
         (\<exists>g. grupa (df ! i) = Some g \<and> d \<notin> claimed_domains df (Some g))"
proof -
  from assms(2) have "(i, d) \<in> set picks" by (rule map_of_SomeD)
  with assms(1) show ?thesis unfolding round_picks_def by fastforce
qed

lemma allocate_round_kept:
  assumes "allocate_round new_rng randint df col r = Inr (df', n)"
  shows "allocation_kept df df'"
proof -
  from allocate_round_result [OF assms] obtain picks where
    rp: "round_picks df col picks" and len: "length df' = length df" and
    nth: "\<forall>i<length df. df' ! i =
              (case map_of picks i of None \<Rightarrow> df ! i
               | Some d \<Rightarrow> (df ! i)\<lparr>alocare := d, runda := str_nat r\<rparr>)"
    by blast
  have "alocare (df' ! i) = alocare (df ! i) \<and> runda (df' ! i) = runda (df ! i)"
    if "i < length df" "alocare (df ! i) \<noteq> []" for i
  proof (cases "map_of picks i")
    case None
    with nth that show ?thesis by simp
  next
    case (Some d)
    from round_picks_map_of [OF rp Some] that show ?thesis by simp
  qed
  with len show ?thesis by (simp add: allocation_kept_def list_all2_conv_all_nth)
qed

lemma update_row2_alloc: "alocare (update_row2 a t) = alocare t \<and> runda (update_row2 a t) = runda t
    \<and> grupa (update_row2 a t) = grupa t"
  by (simp add: update_row2_def split: option.splits)

lemma update_row3_alloc: "alocare (update_row3 a t) = alocare t \<and> runda (update_row3 a t) = runda t
    \<and> grupa (update_row3 a t) = grupa t"
  by (simp add: update_row3_def split: option.splits)

lemma update_preferences_alloc:
  "map (\<lambda>t. (grupa t, alocare t, runda t)) (update_preferences df r)
     = map (\<lambda>t. (grupa t, alocare t, runda t)) df"
  by (simp add: update_preferences_def Let_def comp_def update_row2_alloc update_row3_alloc)

lemma assign_themes_alloc:
  "map (\<lambda>t. (grupa t, alocare t, runda t)) (assign_themes df)
     = map (\<lambda>t. (grupa t, alocare t, runda t)) df"
  by (simp add: assign_themes_def assign_theme_row_def comp_def split: option.splits)

lemma allocation_kept_map:
  assumes "map (\<lambda>t. (grupa t, alocare t, runda t)) df' = map (\<lambda>t. (grupa t, alocare t, runda t)) df"
  shows "allocation_kept df df'"
proof -
  from assms have len: "length df' = length df" by (rule map_eq_imp_length_eq)
  have "alocare (df' ! i) = alocare (df ! i) \<and> runda (df' ! i) = runda (df ! i)"
    if "i < length df" for i
  proof -
    from that len have "map (\<lambda>t. (grupa t, alocare t, runda t)) df' ! i
        = (grupa (df' ! i), alocare (df' ! i), runda (df' ! i))" by simp
    moreover from that have "map (\<lambda>t. (grupa t, alocare t, runda t)) df ! i
        = (grupa (df ! i), alocare (df ! i), runda (df ! i))" by simp
    ultimately show ?thesis using assms by simp
  qed
  with len show ?thesis by (simp add: allocation_kept_def list_all2_conv_all_nth)
qed

lemma allocation_kept_trans:
  assumes "allocation_kept a b" and "allocation_kept b c"
  shows "allocation_kept a c"
  using assms unfolding allocation_kept_def list_all2_conv_all_nth by auto

text \<open>
  Claim C2. A round, a preference update and the theme resolution each keep every
  allocation: a row whose allocated domain was set has the same allocated domain and
  the same round afterwards. Keeping is transitive, so no later call of any of the three
  changes what an earlier round set.
\<close>

theorem allocation_monotone:
  "(allocate_round new_rng randint df col r = Inr (df', n) \<longrightarrow> allocation_kept df df') \<and>
   allocation_kept df (update_preferences df r) \<and>
   allocation_kept df (assign_themes df) \<and>
   (allocation_kept df df1 \<and> allocation_kept df1 df2 \<longrightarrow> allocation_kept df df2)"
  using allocate_round_kept allocation_kept_map [OF update_preferences_alloc]
    allocation_kept_map [OF assign_themes_alloc] allocation_kept_trans
  by blast

section \<open>No domain twice in a group\<close>

lemma group_domains_unique_nth:
  "group_domains_unique df \<longleftrightarrow>
     (\<forall>i<length df. \<forall>j<length df. i < j \<and> alocare (df ! i) \<noteq> [] \<and> alocare (df ! j) \<noteq> []
        \<longrightarrow> (grupa (df ! i), alocare (df ! i)) \<noteq> (grupa (df ! j), alocare (df ! j)))"
  unfolding group_domains_unique_def by (rule distinct_map_filter_nth)

lemma claimed_domains_mem:
  assumes "j < length df" "grupa (df ! j) = Some g" "alocare (df ! j) \<noteq> []"
  shows "alocare (df ! j) \<in> claimed_domains df (Some g)"
proof -
  from assms(1) have "df ! j \<in> set df" by simp
  with assms(2,3) show ?thesis by (auto simp: claimed_domains_def image_iff)
qed

lemma allocate_round_unique:
  assumes inv: "group_domains_unique df"
    and ar: "allocate_round new_rng randint df col r = Inr (df', n)"
  shows "group_domains_unique df'"
proof -
  from allocate_round_result [OF ar] obtain picks where
    rp: "round_picks df col picks" and len: "length df' = length df" and
    nth: "\<forall>i<length df. df' ! i =
              (case map_of picks i of None \<Rightarrow> df ! i
               | Some d \<Rightarrow> (df ! i)\<lparr>alocare := d, runda := str_nat r\<rparr>)"
    by blast
  have grp: "grupa (df' ! i) = grupa (df ! i)" if "i < length df" for i
    using nth that by (simp split: option.splits)
  have old: "alocare (df' ! i) = alocare (df ! i)" if "i < length df" "map_of picks i = None" for i
    using nth that by simp
  have new: "alocare (df' ! i) = d" if "i < length df" "map_of picks i = Some d" for i d
    using nth that by simp
  have inj: "inj_on (\<lambda>p. (grupa (df ! fst p), snd p)) (set picks)"
    using rp by (simp add: round_picks_def distinct_map)
  have ne: "(grupa (df' ! i), alocare (df' ! i)) \<noteq> (grupa (df' ! j), alocare (df' ! j))"
    if ij: "i < length df" "j < length df" "i < j"
      and ai: "alocare (df' ! i) \<noteq> []" and aj: "alocare (df' ! j) \<noteq> []" for i j
  proof
    assume eq: "(grupa (df' ! i), alocare (df' ! i)) = (grupa (df' ! j), alocare (df' ! j))"
    with ij have geq: "grupa (df ! i) = grupa (df ! j)" and aeq: "alocare (df' ! i) = alocare (df' ! j)"
      by (simp_all add: grp)
    show False
    proof (cases "map_of picks i")
      case None
      note Ni = this
      show ?thesis
      proof (cases "map_of picks j")
        case None
        with Ni ij ai aj aeq geq have "alocare (df ! i) \<noteq> []" "alocare (df ! j) \<noteq> []"
          "(grupa (df ! i), alocare (df ! i)) = (grupa (df ! j), alocare (df ! j))"
          by (simp_all add: old)
        with inv ij show False unfolding group_domains_unique_nth by blast
      next
        case (Some d)
        from round_picks_map_of [OF rp Some] obtain g where
          g: "grupa (df ! j) = Some g" "d \<notin> claimed_domains df (Some g)" by blast
        from Ni ij ai have "alocare (df ! i) \<noteq> []" by (simp add: old)
        with g geq ij have "alocare (df ! i) \<in> claimed_domains df (Some g)"
          by (simp add: claimed_domains_mem)
        moreover from Ni Some ij aeq have "alocare (df ! i) = d" by (simp add: old new)
        ultimately show False using g by simp
      qed
    next
      case (Some d)
      note Si = this
      from round_picks_map_of [OF rp Some] obtain g where
        g: "grupa (df ! i) = Some g" "d \<notin> claimed_domains df (Some g)" by blast
      show ?thesis
      proof (cases "map_of picks j")
        case None
        with ij aj have "alocare (df ! j) \<noteq> []" by (simp add: old)
        with g geq ij have "alocare (df ! j) \<in> claimed_domains df (Some g)"
          by (simp add: claimed_domains_mem)
        moreover from None Si ij aeq have "alocare (df ! j) = d" by (simp add: old new)
        ultimately show False using g by simp
      next
        case (Some d')
        from Si Some ij aeq have "d = d'" by (simp add: new)
        moreover from Si have pi: "(i, d) \<in> set picks" by (rule map_of_SomeD)
        moreover from Some have pj: "(j, d') \<in> set picks" by (rule map_of_SomeD)
        ultimately have "(i, d) = (j, d')" using geq
          by (intro inj_onD [OF inj]) simp_all
        with ij show False by simp
      qed
    qed
  qed
  show ?thesis unfolding group_domains_unique_nth using ne len by simp
qed

lemma unique_from_pairs:
  assumes "map (\<lambda>t. (grupa t, alocare t, runda t)) df' = map (\<lambda>t. (grupa t, alocare t, runda t)) df"
  shows "group_domains_unique df' = group_domains_unique df"
proof -
  have eq: "map (\<lambda>t. (grupa t, alocare t)) (filter (\<lambda>t. alocare t \<noteq> []) x)
        = map (\<lambda>q. (fst q, fst (snd q)))
            (filter (\<lambda>q. fst (snd q) \<noteq> []) (map (\<lambda>t. (grupa t, alocare t, runda t)) x))" for x
    by (simp add: filter_map comp_def)
  show ?thesis unfolding group_domains_unique_def eq assms ..
qed

lemma preprocess_unallocated:
  assumes "preprocess_dataframe rows = Inr df"
  shows "filter (\<lambda>t. alocare t \<noteq> []) df = []"
proof -
  have "alocare (preprocess_row r) = []" for r
    by (simp add: preprocess_row_def Let_def)
  moreover from assms have "df = map preprocess_row rows"
    by (simp add: preprocess_dataframe_def split: if_splits)
  ultimately show ?thesis by (simp add: filter_empty_conv)
qed

text \<open>
  Claim C1. In a run, after round 1, after round 2 and after round 3 the table satisfies
  the group invariant: no two allocated teams of one group hold the same domain. This
  covers domains allocated in earlier rounds (the dictionary built from the table) and
  several candidates of one group asking for one domain in the same round (one partition,
  one pick).
\<close>

theorem no_duplicate_domain_in_group:
  assumes "preprocess_dataframe rows = Inr df0"
    and "allocate_round new_rng randint df0 D1 1 = Inr (df1, n1)"
  shows "group_domains_unique df1 \<and>
     (allocate_round new_rng randint (update_preferences df1 2) D2 2 = Inr (df2, n2) \<longrightarrow>
        group_domains_unique df2 \<and>
        (allocate_round new_rng randint (update_preferences df2 3) D3 3 = Inr (df3, n3) \<longrightarrow>
           group_domains_unique df3))"
proof -
  from preprocess_unallocated [OF assms(1)] have u0: "group_domains_unique df0"
    by (simp add: group_domains_unique_def)
  from allocate_round_unique [OF u0 assms(2)] have u1: "group_domains_unique df1" .
  then have p1: "group_domains_unique (update_preferences df1 2)"
    by (simp add: unique_from_pairs [OF update_preferences_alloc])
  have u2: "group_domains_unique df2"
    if "allocate_round new_rng randint (update_preferences df1 2) D2 2 = Inr (df2, n2)"
    using allocate_round_unique [OF p1 that] .
  have u3: "group_domains_unique df3"
    if "allocate_round new_rng randint (update_preferences df1 2) D2 2 = Inr (df2, n2)"
      and "allocate_round new_rng randint (update_preferences df2 3) D3 3 = Inr (df3, n3)"
  proof -
    from u2 [OF that(1)] have "group_domains_unique (update_preferences df2 3)"
      by (simp add: unique_from_pairs [OF update_preferences_alloc])
    from allocate_round_unique [OF this that(2)] show ?thesis .
  qed
  from u1 u2 u3 show ?thesis by blast
qed

text \<open>The sample run, evaluated.\<close>

lemma sample_preprocess: "preprocess_dataframe sample_rows = Inr (map preprocess_row sample_rows)"
  by code_simp

lemma sample_r1: "allocate_round (\<lambda>seed. ()) randint_zero (map preprocess_row sample_rows) D1 1
     = Inr (sample_round1, 2)"
  by code_simp

lemma sample_r2: "allocate_round (\<lambda>seed. ()) randint_zero (update_preferences sample_round1 2) D2 2
     = Inr (sample_round2, 1)"
  by code_simp

lemma sample_r3: "allocate_round (\<lambda>seed. ()) randint_zero (update_preferences sample_round2 3) D3 3
     = Inr (sample_round3, 1)"
  by code_simp

lemma sample_alloc: "map alocare sample_round3 = [''A'', ''B'', ''C'', ''A'']"
  by code_simp

theorem no_duplicate_domain_in_group_witness:
  "group_domains_unique sample_round1 \<and> group_domains_unique sample_round2 \<and>
   group_domains_unique sample_round3"
  using no_duplicate_domain_in_group [OF sample_preprocess sample_r1, of sample_round2 1 sample_round3 1]
    sample_r2 sample_r3
  by blast

theorem allocation_monotone_witness:
  "allocation_kept (update_preferences sample_round1 2) sample_round2 \<and>
   allocation_kept sample_round1 (update_preferences sample_round1 2) \<and>
   allocation_kept sample_round1 sample_round2"
  using allocation_monotone [of "\<lambda>seed. ()" randint_zero "update_preferences sample_round1 2" D2 2
      sample_round2 1 "update_preferences sample_round1 2" sample_round2]
    allocation_monotone [of "\<lambda>seed. ()" randint_zero sample_round1 D2 2
      sample_round2 1 "update_preferences sample_round1 2" sample_round2]
    sample_r2
  by blast

section \<open>Round allocator: partitions of one row\<close>











section \<open>Orchestrator: failing input\<close>

lemma allocate_projects_failure:
  assumes "try_block new_rng randint input = Inl e"
  shows "allocate_projects new_rng randint input w = (w\<lparr>stderr := stderr w @ [e]\<rparr>, None)"
  using assms by (simp add: allocate_projects_def)

lemma allocate_projects_None:
  assumes "snd (allocate_projects new_rng randint input w) = None"
  shows "\<exists>e. try_block new_rng randint input = Inl e"
  using assms by (cases "try_block new_rng randint input") (auto simp: allocate_projects_def)

text \<open>
  Claim C8. A run whose input cannot be read aborts as a whole. When \<^verbatim>\<open>read_csv\<close>
  raises (missing file, malformed encoding), and when the table it returns lacks the
  column \<^verbatim>\<open>Echipa\<close> or \<^verbatim>\<open>Optiuni\<close> (schema mismatch), the run returns no table,
  prints the exception and changes nothing else. More generally, for every input: a run
  that returns no table has printed one diagnostic and left the output file as it was,
  whatever stage failed; and a run that returns a table has written exactly that table.
\<close>

theorem input_failure_aborts:
  "allocate_projects new_rng randint (Inl e) w = (w\<lparr>stderr := stderr w @ [e]\<rparr>, None) \<and>
   allocate_projects new_rng randint (Inr Missing_Echipa) w
     = (w\<lparr>stderr := stderr w @ [KeyError]\<rparr>, None) \<and>
   allocate_projects new_rng randint (Inr Missing_Optiuni) w
     = (w\<lparr>stderr := stderr w @ [KeyError]\<rparr>, None) \<and>
   (snd (allocate_projects new_rng randint input w) = None \<longrightarrow>
      output_file (fst (allocate_projects new_rng randint input w)) = output_file w \<and>
      (\<exists>e'. stderr (fst (allocate_projects new_rng randint input w)) = stderr w @ [e'])) \<and>
   (\<forall>df. snd (allocate_projects new_rng randint input w) = Some df \<longrightarrow>
      fst (allocate_projects new_rng randint input w) = w\<lparr>output_file := Some df\<rparr>)"
proof (intro conjI)
  show "allocate_projects new_rng randint (Inl e) w = (w\<lparr>stderr := stderr w @ [e]\<rparr>, None)"
    by (rule allocate_projects_failure) (simp add: try_block_def)
  show "allocate_projects new_rng randint (Inr Missing_Echipa) w
     = (w\<lparr>stderr := stderr w @ [KeyError]\<rparr>, None)"
    by (rule allocate_projects_failure) (simp add: try_block_def column_access_def)
  show "allocate_projects new_rng randint (Inr Missing_Optiuni) w
     = (w\<lparr>stderr := stderr w @ [KeyError]\<rparr>, None)"
    by (rule allocate_projects_failure) (simp add: try_block_def column_access_def)
  show "snd (allocate_projects new_rng randint input w) = None \<longrightarrow>
      output_file (fst (allocate_projects new_rng randint input w)) = output_file w \<and>
      (\<exists>e'. stderr (fst (allocate_projects new_rng randint input w)) = stderr w @ [e'])"
  proof
    assume "snd (allocate_projects new_rng randint input w) = None"
    then obtain e' where "try_block new_rng randint input = Inl e'"
      using allocate_projects_None by blast
    from allocate_projects_failure [OF this, of w]
    show "output_file (fst (allocate_projects new_rng randint input w)) = output_file w \<and>
      (\<exists>e'. stderr (fst (allocate_projects new_rng randint input w)) = stderr w @ [e'])"
      by simp
  qed
  show "\<forall>df. snd (allocate_projects new_rng randint input w) = Some df \<longrightarrow>
      fst (allocate_projects new_rng randint input w) = w\<lparr>output_file := Some df\<rparr>"
    by (cases "try_block new_rng randint input") (auto simp: allocate_projects_def)
qed

lemma two_option_run_fails:
  "snd (allocate_projects (\<lambda>seed. ()) randint_zero (Inr (Columns two_option_rows)) world_before) = None"
  by code_simp

theorem input_failure_aborts_witness:
  "output_file (fst (allocate_projects (\<lambda>seed. ()) randint_zero (Inr (Columns two_option_rows))
      world_before)) = Some sample_after_round1 \<and>
   allocate_projects (\<lambda>seed. ()) randint_zero (Inr Missing_Echipa) world_before
     = (world_before\<lparr>stderr := [KeyError]\<rparr>, None)"
proof -
  note t = input_failure_aborts [of "\<lambda>seed. ()" randint_zero _ world_before
      "Inr (Columns two_option_rows)"]
  from t two_option_run_fails
  have "output_file (fst (allocate_projects (\<lambda>seed. ()) randint_zero (Inr (Columns two_option_rows))
      world_before)) = output_file world_before" by blast
  moreover from t have "allocate_projects (\<lambda>seed. ()) randint_zero (Inr Missing_Echipa) world_before
     = (world_before\<lparr>stderr := stderr world_before @ [KeyError]\<rparr>, None)" by blast
  ultimately show ?thesis by (simp add: world_before_def)
qed

section \<open>Orchestrator: reproducible runs\<close>

lemma run_rounds_seed:
  assumes "new_rng' (SEED + 1) = new_rng (SEED + 1)"
    and "new_rng' (SEED + 2) = new_rng (SEED + 2)"
    and "new_rng' (SEED + 3) = new_rng (SEED + 3)"
  shows "run_rounds new_rng' randint rows = run_rounds new_rng randint rows"
proof -
  have r1: "allocate_round new_rng' randint df col 1 = allocate_round new_rng randint df col 1"
    for df col using assms(1) by (simp add: allocate_round_def)
  have r2: "allocate_round new_rng' randint df col 2 = allocate_round new_rng randint df col 2"
    for df col using assms(2) by (simp add: allocate_round_def)
  have r3: "allocate_round new_rng' randint df col 3 = allocate_round new_rng randint df col 3"
    for df col using assms(3) by (simp add: allocate_round_def)
  show ?thesis unfolding run_rounds_def r1 r2 r3 ..
qed

text \<open>
  Claim C3. The outcome of a run is a function of the input table and of the three
  generators created with the seeds \<open>SEED + 1\<close>, \<open>SEED + 2\<close> and \<open>SEED + 3\<close>,
  and of nothing else. Two runs on the same input, in any two worlds and with generator
  constructors that agree on these three seeds, have the same outcome of the \<^verbatim>\<open>try\<close>
  block (the same table with every field of every team and the same three counts, or the
  same exception) and return the same value; when they return a table they leave the
  same output file. In particular a second run, started in the world the first run left,
  leaves the output file as the first run left it.
\<close>

theorem pipeline_deterministic:
  assumes "new_rng' (SEED + 1) = new_rng (SEED + 1)"
    and "new_rng' (SEED + 2) = new_rng (SEED + 2)"
    and "new_rng' (SEED + 3) = new_rng (SEED + 3)"
  shows "try_block new_rng' randint input = try_block new_rng randint input \<and>
         snd (allocate_projects new_rng' randint input w')
           = snd (allocate_projects new_rng randint input w) \<and>
         (snd (allocate_projects new_rng randint input w) \<noteq> None \<longrightarrow>
            output_file (fst (allocate_projects new_rng' randint input w'))
              = output_file (fst (allocate_projects new_rng randint input w))) \<and>
         output_file (fst (allocate_projects new_rng' randint input
                             (fst (allocate_projects new_rng randint input w))))
           = output_file (fst (allocate_projects new_rng randint input w))"
proof -
  have rr: "run_rounds new_rng' randint rows = run_rounds new_rng randint rows" for rows
    using assms by (rule run_rounds_seed)
  have tb: "try_block new_rng' randint input = try_block new_rng randint input"
    unfolding try_block_def rr ..
  show ?thesis
    by (cases "try_block new_rng randint input") (auto simp: allocate_projects_def tb)
qed

theorem pipeline_deterministic_witness:
  "try_block (\<lambda>seed. if seed \<le> SEED then 0 else seed) randint_mod (Inr (Columns sample_rows))
     = try_block (\<lambda>seed. seed) randint_mod (Inr (Columns sample_rows)) \<and>
   snd (allocate_projects (\<lambda>seed. if seed \<le> SEED then 0 else seed) randint_mod
          (Inr (Columns sample_rows)) world_before)
     = snd (allocate_projects (\<lambda>seed. seed) randint_mod (Inr (Columns sample_rows))
          \<lparr>stderr = [], output_file = None\<rparr>) \<and>
   output_file (fst (allocate_projects (\<lambda>seed. if seed \<le> SEED then 0 else seed) randint_mod
        (Inr (Columns sample_rows))
        (fst (allocate_projects (\<lambda>seed. seed) randint_mod (Inr (Columns sample_rows))
           \<lparr>stderr = [], output_file = None\<rparr>))))
     = output_file (fst (allocate_projects (\<lambda>seed. seed) randint_mod (Inr (Columns sample_rows))
           \<lparr>stderr = [], output_file = None\<rparr>))"
proof -
  have a: "(\<lambda>seed. if seed \<le> SEED then 0 else seed) (SEED + 1) = (\<lambda>seed. seed) (SEED + 1)"
    by simp
  have b: "(\<lambda>seed. if seed \<le> SEED then 0 else seed) (SEED + 2) = (\<lambda>seed. seed) (SEED + 2)"
    by simp
  have c: "(\<lambda>seed. if seed \<le> SEED then 0 else seed) (SEED + 3) = (\<lambda>seed. seed) (SEED + 3)"
    by simp
  from pipeline_deterministic [OF a b c, of randint_mod "Inr (Columns sample_rows)" world_before
      "\<lparr>stderr = [], output_file = None\<rparr>"]
  show ?thesis by blast
qed

section \<open>Preprocessor: the deduplication policy\<close>

lemma parsed_domains_three:
  "\<exists>a b c. parsed_domains opt = [a, b, c]"
  by (simp add: parsed_domains_def Let_def)

lemma preprocess_row_domains:
  assumes "parsed_domains (row.Optiuni r) = [a, b, c]"
  shows "domain_list (preprocess_row r) =
           (if b = a \<or> b = []
            then [a, if c = a \<or> c = b \<or> c = [] then [] else c, []]
            else [a, b, if c = a \<or> c = b \<or> c = [] then [] else c])"
  using assms by (simp add: parsed_domains_def preprocess_row_def domain_list_def Let_def)

lemma dedup_first_occurrences:
  "filter (\<lambda>d. d \<noteq> [])
      (if b = a \<or> b = []
       then [a, if c = a \<or> c = b \<or> c = [] then [] else c, []]
       else [a, b, if c = a \<or> c = b \<or> c = [] then [] else c])
   = first_occurrences (filter (\<lambda>d. d \<noteq> []) [a, b, (c :: string)])"
  by (auto simp: first_occurrences_def)

lemma dedup_left_packed:
  assumes "a \<noteq> [] \<or> filter (\<lambda>d. d \<noteq> []) [a, b, (c :: string)] = []"
  shows "left_packed
      (if b = a \<or> b = []
       then [a, if c = a \<or> c = b \<or> c = [] then [] else c, []]
       else [a, b, if c = a \<or> c = b \<or> c = [] then [] else c])"
  using assms by (auto simp: left_packed_def split: if_splits)

lemma distinct_first_occurrences: "distinct (first_occurrences xs)"
  by (simp add: first_occurrences_def)

lemma d1_domain_list: "domain_list t = a # ds \<Longrightarrow> d1 t = a"
  by (simp add: domain_list_def)

text \<open>
  Claim C4, as amended. For every row, the filled slots among \<open>d1\<close>, \<open>d2\<close>, \<open>d3\<close>
  after preprocessing are the non-empty domains parsed from the first three options, each
  once, in the order of their first occurrence: a duplicate-free list of 0 to 3 domains
  in the original order. The three slots are left-packed whenever the first parsed domain
  is not empty, or none of the three is filled. Parsed domains A, A, B with A and B
  different and not empty give A, B and an empty third slot.
\<close>

theorem dedup_policy:
  "filter (\<lambda>d. d \<noteq> []) (domain_list (preprocess_row r))
     = first_occurrences (filter (\<lambda>d. d \<noteq> []) (parsed_domains (row.Optiuni r))) \<and>
   distinct (filter (\<lambda>d. d \<noteq> []) (domain_list (preprocess_row r))) \<and>
   length (filter (\<lambda>d. d \<noteq> []) (domain_list (preprocess_row r))) \<le> 3 \<and>
   (d1 (preprocess_row r) \<noteq> [] \<or> filter (\<lambda>d. d \<noteq> []) (parsed_domains (row.Optiuni r)) = []
      \<longrightarrow> left_packed (domain_list (preprocess_row r))) \<and>
   (parsed_domains (row.Optiuni r) = [a, a, b] \<and> a \<noteq> [] \<and> b \<noteq> [] \<and> b \<noteq> a
      \<longrightarrow> domain_list (preprocess_row r) = [a, b, []])"
proof -
  obtain x y z where p: "parsed_domains (row.Optiuni r) = [x, y, z]"
    using parsed_domains_three by blast
  note dl = preprocess_row_domains [OF p]
  have c1: "filter (\<lambda>d. d \<noteq> []) (domain_list (preprocess_row r))
     = first_occurrences (filter (\<lambda>d. d \<noteq> []) (parsed_domains (row.Optiuni r)))"
    unfolding dl p by (rule dedup_first_occurrences)
  have c2: "distinct (filter (\<lambda>d. d \<noteq> []) (domain_list (preprocess_row r)))"
    unfolding c1 by (rule distinct_first_occurrences)
  have c3: "length (filter (\<lambda>d. d \<noteq> []) (domain_list (preprocess_row r))) \<le> 3"
  proof -
    have "length (filter (\<lambda>d. d \<noteq> []) (domain_list (preprocess_row r)))
            \<le> length (domain_list (preprocess_row r))" by (rule length_filter_le)
    then show ?thesis by (simp add: domain_list_def)
  qed
  have d1x: "d1 (preprocess_row r) = x"
    using dl by (auto dest: d1_domain_list split: if_splits)
  have c4: "left_packed (domain_list (preprocess_row r))"
    if "d1 (preprocess_row r) \<noteq> [] \<or> filter (\<lambda>d. d \<noteq> []) (parsed_domains (row.Optiuni r)) = []"
  proof -
    from that have "x \<noteq> [] \<or> filter (\<lambda>d. d \<noteq> []) [x, y, z] = []" by (simp only: d1x p)
    from dedup_left_packed [OF this] show ?thesis unfolding dl .
  qed
  have c5: "domain_list (preprocess_row r) = [a, b, []]"
    if "parsed_domains (row.Optiuni r) = [a, a, b] \<and> a \<noteq> [] \<and> b \<noteq> [] \<and> b \<noteq> a"
    using that preprocess_row_domains [of r a a b] by simp
  from c1 c2 c3 c4 c5 show ?thesis by blast
qed

text \<open>
  The claim as it was stated fails for a row whose first option is empty: the row is
  accepted, its first slot stays empty and the two others are filled, so the slots are
  not left-packed. No mask of the preprocessor moves a domain into \<open>d1\<close>.
\<close>

theorem dedup_policy_counterexample:
  "preprocess_dataframe [empty_first_row] = Inr [preprocess_row empty_first_row] \<and>
   domain_list (preprocess_row empty_first_row) = [[], ''B'', ''C''] \<and>
   \<not> left_packed (domain_list (preprocess_row empty_first_row))"
  by code_simp

lemma sample_row_parsed:
  "parsed_domains (row.Optiuni (sample_rows ! 1)) = [''A'', ''A'', ''B''] \<and>
   d1 (preprocess_row (sample_rows ! 1)) = ''A''"
  by code_simp

theorem dedup_policy_witness:
  "left_packed (domain_list (preprocess_row (sample_rows ! 1))) \<and>
   domain_list (preprocess_row (sample_rows ! 1)) = [''A'', ''B'', []]"
proof -
  note t = dedup_policy [of "sample_rows ! 1" "''A''" "''B''"]
  from sample_row_parsed have "d1 (preprocess_row (sample_rows ! 1)) \<noteq> []" by simp
  with t have "left_packed (domain_list (preprocess_row (sample_rows ! 1)))" by blast
  moreover from t sample_row_parsed
  have "domain_list (preprocess_row (sample_rows ! 1)) = [''A'', ''B'', []]" by simp
  ultimately show ?thesis ..
qed

section \<open>Theme resolver: matching by the beginning of the entry\<close>

text \<open>
  Claim C5 says that an allocated team gets the first original entry whose part before
  the first hyphen equals the allocated domain. The code tests
  \<^verbatim>\<open>tema.startswith(alocare)\<close> instead, so an earlier entry of a domain whose name
  begins with the allocated domain wins. Two teams of one group both give the options
  AB-x, A-y, C-z. Whichever of the two the draw of round 1 picks for AB (index 0 or
  index 1, the two draws possible among two rows), the other one is allocated A in round
  2, and the code assigns it the theme AB-x, an entry of domain AB, where the
  specification's theme is A-y. Each triple below is the allocated domain, the theme of
  the code and the theme of the specification.
\<close>

theorem theme_of_other_domain:
  "map_sum id (\<lambda>p. theme_report (fst p)) (run_rounds (\<lambda>seed. ()) randint_zero prefix_rows)
     = Inr [(''AB'', ''AB-x'', ''AB-x''), (''A'', ''AB-x'', ''A-y'')] \<and>
   map_sum id (\<lambda>p. theme_report (fst p)) (run_rounds (\<lambda>seed. ()) randint_last prefix_rows)
     = Inr [(''A'', ''AB-x'', ''A-y''), (''AB'', ''AB-x'', ''AB-x'')] \<and>
   before_hyphen ''AB-x'' = ''AB''"
  by code_simp

section \<open>Theme resolver: allocated teams find a theme\<close>






lemma from_original_domenii:
  "domenii t' = domenii t \<Longrightarrow> from_original t' d = from_original t d"
  by (simp add: from_original_def)















lemma contested_themes:
  "map (\<lambda>t. (alocare t, tema_proiect t)) contested_final
     = [(''A'', ''A-x''), ([], ''De alocat manual''), ([], ''De alocat manual'')]"
  by code_simp


end
